theory Spec2Isabelle
  imports Complex_Main "HOL-Library.Word" "HOL-Library.Signed_Division" "HOL-Library.Log_Nat"
begin

section \<open>Go values the program computes with\<close>

subsection \<open>Integers, errors and panics\<close>

text \<open>
  \<^verbatim>\<open>time.Duration\<close> is an \<^verbatim>\<open>int64\<close> count of nanoseconds: addition wraps
  around, comparison is signed, and \<^verbatim>\<open>/\<close> truncates towards zero.
\<close>

type_synonym int64 = "64 word"
type_synonym Duration = int64

definition int64_quo :: "int64 \<Rightarrow> int64 \<Rightarrow> int64" where
  "int64_quo a b = word_of_int (sint a sdiv sint b)"

text \<open>
  The \<^verbatim>\<open>error\<close> values that reach the program, and the ways it can panic: an
  explicit \<^verbatim>\<open>panic("...")\<close>, \<^verbatim>\<open>panic(err)\<close>, and the run-time panics of a nil
  dereference, an index out of range and an integer division by zero.
\<close>

datatype error = SessionError | ListStateMachinesError | ListExecutionsError | CreateError | WriteError

datatype panic = PanicString string | PanicError error | NilDereference | IndexOutOfRange | DivideByZero

definition index :: "'a list \<Rightarrow> nat \<Rightarrow> panic + 'a" where
  "index xs i = (if i < length xs then Inr (xs ! i) else Inl IndexOutOfRange)"

subsection \<open>Decimal digits and \<^verbatim>\<open>strings.Split\<close>\<close>

function digits :: "int \<Rightarrow> string" where
  "digits n = (if n < 10 then [''0123456789'' ! nat n]
               else digits (n div 10) @ [''0123456789'' ! nat (n mod 10)])"
  by pat_completeness auto
termination
  by (relation "measure nat") auto

declare digits.simps [simp del]

text \<open>\<^verbatim>\<open>fmt.Sprintf("%d", n)\<close>.\<close>

definition Sprintf_d :: "int \<Rightarrow> string" where
  "Sprintf_d n = (if n < 0 then ''-'' else []) @ digits \<bar>n\<bar>"

text \<open>
  \<^verbatim>\<open>appendInt\<close> of package \<^verbatim>\<open>time\<close>: the sign, then the digits padded with zeros
  to the width.
\<close>

definition appendInt :: "int \<Rightarrow> nat \<Rightarrow> string" where
  "appendInt x width =
     (if x < 0 then ''-'' else []) @
     replicate (width - length (digits \<bar>x\<bar>)) CHR ''0'' @ digits \<bar>x\<bar>"

text \<open>\<^verbatim>\<open>strings.Split(s, sep)\<close> for a separator of one byte.\<close>

fun Split :: "string \<Rightarrow> char \<Rightarrow> string list" where
  "Split [] sep = [[]]"
| "Split (c # s) sep =
     (if c = sep then [] # Split s sep
      else (case Split s sep of [] \<Rightarrow> [[c]] | w # ws \<Rightarrow> (c # w) # ws))"

subsection \<open>\<^verbatim>\<open>time.Time\<close>\<close>

text \<open>
  A \<^verbatim>\<open>*time.Location\<close> is what its method \<^verbatim>\<open>lookup\<close> answers: for an instant in
  Unix seconds, the offset from UTC in force at that instant (in seconds east of UTC), and
  the first and the end second of the period in which that offset is in force. In
  \<^verbatim>\<open>time.UTC\<close> the offset is zero at all times. \<open>New_York\<close> is the zone
  \<^verbatim>\<open>America/New_York\<close> from March 2023 to November 2024, an example of a location whose
  offset changes over the year.
\<close>

type_synonym Location = "int \<Rightarrow> int \<times> int \<times> int"

definition UTC :: Location where
  "UTC sec = (0, - (2 ^ 63), 2 ^ 63 - 1)"

definition New_York :: Location where
  "New_York sec =
     (if sec < 1699164000 then (- 14400, 1678604400, 1699164000)
      else if sec < 1710054000 then (- 18000, 1699164000, 1710054000)
      else (- 14400, 1710054000, 1730613600))"

text \<open>
  A \<^verbatim>\<open>time.Time\<close> is an instant, here in nanoseconds since the Unix epoch, and a
  location. The values carry no monotonic clock reading: the SDK builds them from numbers,
  and \<^verbatim>\<open>AddDate\<close> drops the reading of \<^verbatim>\<open>time.Now()\<close>.
\<close>

record Time =
  unixNano :: int
  location :: Location

text \<open>
  The proleptic Gregorian calendar: the day number of a date, counted from 1970-01-01,
  and the date of a day number.
\<close>

definition days_from_civil :: "int \<Rightarrow> int \<Rightarrow> int \<Rightarrow> int" where
  "days_from_civil y m d =
     (let y' = (if m \<le> 2 then y - 1 else y);
          era = y' div 400;
          yoe = y' - era * 400;
          doy = (153 * (if 2 < m then m - 3 else m + 9) + 2) div 5 + d - 1;
          doe = yoe * 365 + yoe div 4 - yoe div 100 + doy
      in era * 146097 + doe - 719468)"

definition civil_from_days :: "int \<Rightarrow> int \<times> int \<times> int" where
  "civil_from_days z =
     (let z' = z + 719468;
          era = z' div 146097;
          doe = z' - era * 146097;
          yoe = (doe - doe div 1460 + doe div 36524 - doe div 146096) div 365;
          doy = doe - (365 * yoe + yoe div 4 - yoe div 100);
          mp = (5 * doy + 2) div 153;
          d = doy - (153 * mp + 2) div 5 + 1;
          m = (if mp < 10 then mp + 3 else mp - 9)
      in (yoe + era * 400 + (if m \<le> 2 then 1 else 0), m, d))"

definition Before :: "Time \<Rightarrow> Time \<Rightarrow> bool" where
  "Before t u = (unixNano t < unixNano u)"

text \<open>
  \<^verbatim>\<open>t.Sub(u)\<close> is the difference, held at the least or greatest \<^verbatim>\<open>Duration\<close> when
  it does not fit.
\<close>

definition Sub :: "Time \<Rightarrow> Time \<Rightarrow> Duration" where
  "Sub t u =
     (let d = unixNano t - unixNano u
      in if d < - (2 ^ 63) then word_of_int (- (2 ^ 63))
         else if 2 ^ 63 - 1 < d then word_of_int (2 ^ 63 - 1)
         else word_of_int d)"

text \<open>
  The seconds of the wall clock that \<open>t\<close> shows in its location (\<^verbatim>\<open>t.abs()\<close>, counted
  from the Unix epoch): the offset is looked up at the instant of \<open>t\<close>.
\<close>

definition wall_seconds :: "Time \<Rightarrow> int" where
  "wall_seconds t = unixNano t div 1000000000 + fst (location t (unixNano t div 1000000000))"

text \<open>\<^verbatim>\<open>t.Date()\<close> and \<^verbatim>\<open>t.Clock()\<close>: year, month, day and hour, minute, second in the location of \<open>t\<close>.\<close>

definition Date :: "Time \<Rightarrow> int \<times> int \<times> int" where
  "Date t = civil_from_days (wall_seconds t div 86400)"

definition Clock :: "Time \<Rightarrow> int \<times> int \<times> int" where
  "Clock t = (wall_seconds t mod 86400 div 3600, wall_seconds t mod 3600 div 60, wall_seconds t mod 60)"

text \<open>
  \<^verbatim>\<open>time.Date(year, month, day, hour, min, sec, nsec, loc)\<close>. The month is normalised
  into the year, and days, hours, minutes, seconds and nanoseconds out of range run on
  into the next unit. The wall clock time is then turned into an instant with the offset
  that \<open>loc\<close> has in force there: the offset is looked up at the wall clock time read as
  UTC, and once more at the instant so found when that falls outside the period of the
  first offset.
\<close>

definition time_Date :: "int \<Rightarrow> int \<Rightarrow> int \<Rightarrow> int \<Rightarrow> int \<Rightarrow> int \<Rightarrow> int \<Rightarrow> Location \<Rightarrow> Time" where
  "time_Date year month day hour minute sec nsec loc =
     (let unix = (days_from_civil (year + (month - 1) div 12) ((month - 1) mod 12 + 1) 1 + (day - 1)) * 86400
                 + hour * 3600 + minute * 60 + sec + nsec div 1000000000
      in case loc unix of (offset, start, end) \<Rightarrow>
           let unix' = (if offset \<noteq> 0
                        then (if unix - offset < start \<or> end \<le> unix - offset
                              then unix - fst (loc (unix - offset))
                              else unix - offset)
                        else unix)
           in \<lparr>unixNano = unix' * 1000000000 + nsec mod 1000000000, location = loc\<rparr>)"

text \<open>
  \<^verbatim>\<open>t.AddDate(years, months, days)\<close> is \<^verbatim>\<open>Date(year+years, month+Month(months),
  day+days, hour, min, sec, int(t.nsec()), t.Location())\<close>.
\<close>

definition AddDate :: "Time \<Rightarrow> int \<Rightarrow> int \<Rightarrow> int \<Rightarrow> Time" where
  "AddDate t years months days =
     (case Date t of (year, month, day) \<Rightarrow>
      case Clock t of (hour, minute, sec) \<Rightarrow>
        time_Date (year + years) (month + months) (day + days) hour minute sec
          (unixNano t mod 1000000000) (location t))"

text \<open>\<^verbatim>\<open>t.Format(time.DateOnly)\<close>, the layout \<^verbatim>\<open>"2006-01-02"\<close>.\<close>

definition Format_DateOnly :: "Time \<Rightarrow> string" where
  "Format_DateOnly t =
     (case Date t of (year, month, day) \<Rightarrow>
        appendInt year 4 @ ''-'' @ appendInt month 2 @ ''-'' @ appendInt day 2)"

subsection \<open>\<^verbatim>\<open>float64\<close> and \<^verbatim>\<open>%.2f\<close>\<close>

text \<open>
  A finite \<^verbatim>\<open>float64\<close> is a rational number. Every operation of IEEE 754 returns the
  exact result rounded to the nearest representable number, ties to the even mantissa:
  \<open>float64\<close> is that rounding, with 53 bits of mantissa and the least exponent \<open>- 1022\<close>.
  The program's numbers stay below \<open>2\<^sup>6\<^sup>4\<close>, far from the overflow threshold, and its sums
  have operands of one sign, so neither an infinity nor a negative zero arises.
\<close>

definition round_half_even :: "rat \<Rightarrow> int" where
  "round_half_even x =
     (if x - of_int \<lfloor>x\<rfloor> < 1 / 2 then \<lfloor>x\<rfloor>
      else if 1 / 2 < x - of_int \<lfloor>x\<rfloor> then \<lfloor>x\<rfloor> + 1
      else if even \<lfloor>x\<rfloor> then \<lfloor>x\<rfloor> else \<lfloor>x\<rfloor> + 1)"

text \<open>The exponent \<open>e\<close> with \<open>2\<^sup>e \<le> x < 2\<^sup>e\<^sup>+\<^sup>1\<close>, for positive \<open>x\<close>.\<close>

definition binary_exponent :: "rat \<Rightarrow> int" where
  "binary_exponent x = (if 1 \<le> x then bitlen \<lfloor>x\<rfloor> - 1 else - bitlen (\<lceil>1 / x\<rceil> - 1))"

definition float64 :: "rat \<Rightarrow> rat" where
  "float64 x =
     (if x = 0 then 0
      else of_int (round_half_even (x / 2 powi (max (binary_exponent \<bar>x\<bar>) (- 1022) - 52)))
           * 2 powi (max (binary_exponent \<bar>x\<bar>) (- 1022) - 52))"

text \<open>
  \<^verbatim>\<open>d.Seconds()\<close> is \<^verbatim>\<open>float64(sec) + float64(nsec)/1e9\<close> with \<^verbatim>\<open>sec := d / Second\<close>
  and \<^verbatim>\<open>nsec := d % Second\<close>.
\<close>

definition Seconds :: "Duration \<Rightarrow> rat" where
  "Seconds d =
     float64 (float64 (of_int (sint d sdiv 1000000000))
              + float64 (float64 (of_int (sint d smod 1000000000)) / float64 1000000000))"

text \<open>
  \<^verbatim>\<open>fmt.Sprintf("%.2f", x)\<close>: the sign, then the exact decimal expansion of \<open>\<bar>x\<bar>\<close>
  rounded to two fraction digits, ties to the even digit.
\<close>

definition Sprintf_2f :: "rat \<Rightarrow> string" where
  "Sprintf_2f x =
     (if x < 0 then ''-'' else [])
     @ digits (round_half_even (\<bar>x\<bar> * 100) div 100)
     @ ''.''
     @ digits (round_half_even (\<bar>x\<bar> * 100) mod 100 div 10)
     @ digits (round_half_even (\<bar>x\<bar> * 100) mod 10)"

subsection \<open>Files and \<^verbatim>\<open>encoding/csv\<close>\<close>

text \<open>
  The file system: the contents of the files, the paths \<^verbatim>\<open>os.Create\<close> refuses, and the
  size up to which a file can grow before a write to it fails.
\<close>

record OS =
  files :: "string \<rightharpoonup> string"
  protected :: "string list"
  capacity :: nat

definition Create :: "OS \<Rightarrow> string \<Rightarrow> error + OS" where
  "Create os name =
     (if name \<in> set (protected os) then Inl CreateError
      else Inr (os\<lparr>files := (files os)(name \<mapsto> [])\<rparr>))"

definition file_write :: "OS \<Rightarrow> string \<Rightarrow> string \<Rightarrow> error option \<times> OS" where
  "file_write os name bytes =
     (let content = (case files os name of None \<Rightarrow> [] | Some c \<Rightarrow> c) @ bytes
      in if length content \<le> capacity os
         then (None, os\<lparr>files := (files os)(name \<mapsto> content)\<rparr>)
         else (Some WriteError, os\<lparr>files := (files os)(name \<mapsto> take (capacity os) content)\<rparr>))"

text \<open>
  \<^verbatim>\<open>csv.NewWriter(w)\<close> writes through a \<^verbatim>\<open>bufio.Writer\<close>: bytes collect in a buffer
  of 4096 bytes that is passed on to the file when it overflows and at \<^verbatim>\<open>Flush\<close>; the
  first failed write is kept and returned by every later call. The model passes the
  whole buffer on once it holds more than 4096 bytes; the bytes reach the file in the
  same order.
\<close>

record Writer =
  target :: string
  buffered :: string
  failure :: "error option"

definition NewWriter :: "string \<Rightarrow> Writer" where
  "NewWriter name = \<lparr>target = name, buffered = [], failure = None\<rparr>"

definition Flush :: "Writer \<Rightarrow> OS \<Rightarrow> Writer \<times> OS" where
  "Flush w os =
     (if failure w \<noteq> None \<or> buffered w = [] then (w, os)
      else (case file_write os (target w) (buffered w) of
              (None, os') \<Rightarrow> (w\<lparr>buffered := []\<rparr>, os')
            | (Some err, os') \<Rightarrow> (w\<lparr>failure := Some err\<rparr>, os')))"

text \<open>
  \<^verbatim>\<open>fieldNeedsQuotes\<close> of \<^verbatim>\<open>encoding/csv\<close>, for the comma as delimiter. Its last
  test is \<^verbatim>\<open>unicode.IsSpace\<close> of the first rune: the ASCII white space, and the UTF-8
  encodings of U+0085, U+00A0, U+1680, U+2000 to U+200A, U+2028, U+2029, U+202F, U+205F
  and U+3000.
\<close>

fun leading_space :: "string \<Rightarrow> bool" where
  "leading_space [] = False"
| "leading_space (c # cs) =
     (c \<in> set [CHR 0x09, CHR 0x0A, CHR 0x0B, CHR 0x0C, CHR 0x0D, CHR 0x20]
      \<or> (c = CHR 0xC2 \<and> (take 1 cs = [CHR 0x85] \<or> take 1 cs = [CHR 0xA0]))
      \<or> (c = CHR 0xE1 \<and> take 2 cs = [CHR 0x9A, CHR 0x80])
      \<or> (c = CHR 0xE2 \<and> take 1 cs = [CHR 0x80] \<and>
            (case drop 1 cs of
               [] \<Rightarrow> False
             | e # _ \<Rightarrow> (0x80 \<le> (of_char e :: nat) \<and> (of_char e :: nat) \<le> 0x8A)
                        \<or> e = CHR 0xA8 \<or> e = CHR 0xA9 \<or> e = CHR 0xAF))
      \<or> (c = CHR 0xE2 \<and> take 2 cs = [CHR 0x81, CHR 0x9F])
      \<or> (c = CHR 0xE3 \<and> take 2 cs = [CHR 0x80, CHR 0x80]))"

definition fieldNeedsQuotes :: "string \<Rightarrow> bool" where
  "fieldNeedsQuotes field =
     (if field = [] then False
      else if field = [CHR 0x5C, CHR ''.''] then True
      else if list_ex (\<lambda>c. c = CHR 0x0A \<or> c = CHR 0x0D \<or> c = CHR 0x22 \<or> c = CHR '','') field then True
      else leading_space field)"

text \<open>A quoted field: every quote is doubled, every other byte is copied.\<close>

definition csv_field :: "string \<Rightarrow> string" where
  "csv_field field =
     (if fieldNeedsQuotes field
      then [CHR 0x22] @ concat (map (\<lambda>c. if c = CHR 0x22 then [CHR 0x22, CHR 0x22] else [c]) field) @ [CHR 0x22]
      else field)"

fun csv_line :: "string list \<Rightarrow> string" where
  "csv_line [] = [CHR 0x0A]"
| "csv_line [field] = csv_field field @ [CHR 0x0A]"
| "csv_line (field # row) = csv_field field @ '','' @ csv_line row"

text \<open>\<^verbatim>\<open>(*csv.Writer).Write\<close>: the error it returns, the writer and the file system after it.\<close>

definition Writer_Write :: "Writer \<Rightarrow> string list \<Rightarrow> OS \<Rightarrow> error option \<times> Writer \<times> OS" where
  "Writer_Write w row os =
     (if failure w \<noteq> None then (failure w, w, os)
      else if 4096 < length (buffered w @ csv_line row)
      then (case Flush (w\<lparr>buffered := buffered w @ csv_line row\<rparr>) os of
              (w', os') \<Rightarrow> (failure w', w', os'))
      else (None, w\<lparr>buffered := buffered w @ csv_line row\<rparr>, os))"

subsection \<open>The Step Functions client\<close>

text \<open>
  The fields of \<^verbatim>\<open>sfn.StateMachineListItem\<close> and \<^verbatim>\<open>sfn.ExecutionListItem\<close> the program
  reads are pointers, which may be nil. The client answers \<^verbatim>\<open>ListStateMachines\<close> and, for
  each ARN, \<^verbatim>\<open>ListExecutions\<close>, with a list or an error.
\<close>

record StateMachineListItem =
  StateMachineArn :: "string option"

record ExecutionListItem =
  StartDate :: "Time option"
  StopDate :: "Time option"
  Status :: "string option"

record SFN =
  ListStateMachines :: "error + StateMachineListItem list"
  ListExecutions :: "string option \<Rightarrow> error + ExecutionListItem list"

section \<open>The program: \<^verbatim>\<open>main.go\<close>\<close>

record SfnRecord =
  Name :: string
  StartDate :: string
  Duration :: Duration
  Status :: string

definition StringDurationSecond :: "SfnRecord \<Rightarrow> string" where
  "StringDurationSecond r = Sprintf_2f (Seconds (Duration r))"

type_synonym SfnRecords = "SfnRecord list"

text \<open>
  \<^verbatim>\<open>MaxDuration\<close> and \<^verbatim>\<open>MinDuration\<close> read \<^verbatim>\<open>r[0]\<close> first, which panics on an
  empty slice, then run over all the records.
\<close>

definition MaxDuration :: "SfnRecords \<Rightarrow> panic + Duration" where
  "MaxDuration r = (case r of
      [] \<Rightarrow> Inl IndexOutOfRange
    | r0 # _ \<Rightarrow> Inr (fold (\<lambda>record mx. if mx <s Duration record then Duration record else mx) r (Duration r0)))"

definition MinDuration :: "SfnRecords \<Rightarrow> panic + Duration" where
  "MinDuration r = (case r of
      [] \<Rightarrow> Inl IndexOutOfRange
    | r0 # _ \<Rightarrow> Inr (fold (\<lambda>record mn. if Duration record <s mn then Duration record else mn) r (Duration r0)))"

text \<open>
  \<^verbatim>\<open>AvgDuration\<close> adds the durations up in an \<^verbatim>\<open>int64\<close> and divides by
  \<^verbatim>\<open>time.Duration(len(r))\<close>; a zero divisor panics.
\<close>

definition AvgDuration :: "SfnRecords \<Rightarrow> panic + Duration" where
  "AvgDuration r =
     (let total = fold (\<lambda>record total. total + Duration record) r 0;
          n = (word_of_nat (length r) :: int64)
      in if n = 0 then Inl DivideByZero else Inr (int64_quo total n))"

definition Len :: "SfnRecords \<Rightarrow> nat" where
  "Len r = length r"

definition durationToSeconfString :: "Duration \<Rightarrow> string" where
  "durationToSeconfString d = Sprintf_2f (Seconds d)"

subsection \<open>The loop of \<^verbatim>\<open>main\<close> over the executions\<close>

text \<open>
  The body of the inner loop, lines 46 to 63. The state is the number of times the clock
  has been read and the records appended so far: \<^verbatim>\<open>time.Now()\<close> is called once for
  every execution that has both timestamps, and \<open>clock n\<close> is what the \<open>n\<close>-th call returns.
\<close>

definition execution_body ::
  "(nat \<Rightarrow> Time) \<Rightarrow> StateMachineListItem \<Rightarrow> ExecutionListItem \<Rightarrow> nat \<times> SfnRecords
     \<Rightarrow> panic + nat \<times> SfnRecords" where
  "execution_body clock machine execution st =
     (case st of (tick, records) \<Rightarrow>
      (case (ExecutionListItem.StartDate execution, StopDate execution) of
         (Some start, Some stop) \<Rightarrow>
           if Before start (AddDate (clock tick) 0 (- 2) 0) then Inr (Suc tick, records)
           else
             (let duration = Sub stop start in
              case StateMachineArn machine of
                None \<Rightarrow> Inl NilDereference
              | Some arn \<Rightarrow>
                 (case index (Split arn CHR '':'') 6 of
                    Inl p \<Rightarrow> Inl p
                  | Inr name \<Rightarrow>
                     (case ExecutionListItem.Status execution of
                        None \<Rightarrow> Inl NilDereference
                      | Some status \<Rightarrow>
                          Inr (Suc tick, records @
                            [\<lparr>Name = name, StartDate = Format_DateOnly start,
                              Duration = duration, Status = status\<rparr>]))))
       | _ \<Rightarrow> Inr (tick, records)))"

fun executions_loop ::
  "(nat \<Rightarrow> Time) \<Rightarrow> StateMachineListItem \<Rightarrow> ExecutionListItem list \<Rightarrow> nat \<times> SfnRecords
     \<Rightarrow> panic + nat \<times> SfnRecords" where
  "executions_loop clock machine [] st = Inr st"
| "executions_loop clock machine (execution # executions) st =
     (case execution_body clock machine execution st of
        Inl p \<Rightarrow> Inl p
      | Inr st' \<Rightarrow> executions_loop clock machine executions st')"

fun machines_loop ::
  "SFN \<Rightarrow> (nat \<Rightarrow> Time) \<Rightarrow> StateMachineListItem list \<Rightarrow> nat \<times> SfnRecords
     \<Rightarrow> panic + nat \<times> SfnRecords" where
  "machines_loop svc clock [] st = Inr st"
| "machines_loop svc clock (machine # machines) st =
     (case ListExecutions svc (StateMachineArn machine) of
        Inl err \<Rightarrow> Inl (PanicError err)
      | Inr executions \<Rightarrow>
         (case executions_loop clock machine executions st of
            Inl p \<Rightarrow> Inl p
          | Inr st' \<Rightarrow> machines_loop svc clock machines st'))"

subsection \<open>\<^verbatim>\<open>createCsvFile\<close>\<close>

fun write_records :: "Writer \<Rightarrow> SfnRecords \<Rightarrow> OS \<Rightarrow> error option \<times> Writer \<times> OS" where
  "write_records w [] os = (None, w, os)"
| "write_records w (record # records) os =
     (case Writer_Write w [Name record, StartDate record, StringDurationSecond record, Status record] os of
        (Some err, w', os') \<Rightarrow> (Some err, w', os')
      | (None, w', os') \<Rightarrow> write_records w' records os')"

definition createCsvFile :: "SfnRecords \<Rightarrow> OS \<Rightarrow> error option \<times> OS" where
  "createCsvFile records os =
     (case Create os ''sfn.csv'' of
        Inl err \<Rightarrow> (Some err, os)
      | Inr os1 \<Rightarrow>
         (case Writer_Write (NewWriter ''sfn.csv'') [''Name'', ''StartDate'', ''Duration'', ''Status''] os1 of
            (Some err, w, os2) \<Rightarrow> (Some err, os2)
          | (None, w, os2) \<Rightarrow>
             (case write_records w records os2 of
                (Some err, w', os3) \<Rightarrow> (Some err, os3)
              | (None, w', os3) \<Rightarrow> (case Flush w' os3 of (w'', os4) \<Rightarrow> (failure w'', os4)))))"

subsection \<open>\<^verbatim>\<open>aggregate\<close> and \<^verbatim>\<open>createAggregateCsvFile\<close>\<close>

type_synonym AggregatedRecordMap = "string \<rightharpoonup> SfnRecords"

text \<open>
  The map that the loop of \<^verbatim>\<open>aggregate\<close> builds: \<^verbatim>\<open>aggregated[record.Name] =
  append(aggregated[record.Name], record)\<close>, where a missing key reads as the nil slice.
\<close>

definition aggregated :: "SfnRecords \<Rightarrow> AggregatedRecordMap" where
  "aggregated r =
     fold (\<lambda>record m. m(Name record \<mapsto> (case m (Name record) of None \<Rightarrow> [] | Some g \<Rightarrow> g) @ [record]))
       r Map.empty"

text \<open>
  \<^verbatim>\<open>range\<close> over a map visits its entries in an order the run time chooses: \<open>names\<close> is
  that order, a list of the keys.
\<close>

fun write_groups ::
  "Writer \<Rightarrow> AggregatedRecordMap \<Rightarrow> string list \<Rightarrow> OS \<Rightarrow> (panic + error option) \<times> Writer \<times> OS" where
  "write_groups w m [] os = (Inr None, w, os)"
| "write_groups w m (name # names) os =
     (case m name of
        None \<Rightarrow> write_groups w m names os
      | Some records \<Rightarrow>
         (case MaxDuration records of
            Inl p \<Rightarrow> (Inl p, w, os)
          | Inr mx \<Rightarrow>
             (case MinDuration records of
                Inl p \<Rightarrow> (Inl p, w, os)
              | Inr mn \<Rightarrow>
                 (case AvgDuration records of
                    Inl p \<Rightarrow> (Inl p, w, os)
                  | Inr av \<Rightarrow>
                     (case Writer_Write w
                             [name, durationToSeconfString mx, durationToSeconfString mn,
                              durationToSeconfString av, Sprintf_d (int (Len records))] os of
                        (Some err, w', os') \<Rightarrow> (Inr (Some err), w', os')
                      | (None, w', os') \<Rightarrow> write_groups w' m names os')))))"

definition createAggregateCsvFile ::
  "AggregatedRecordMap \<Rightarrow> string list \<Rightarrow> OS \<Rightarrow> (panic + error option) \<times> OS" where
  "createAggregateCsvFile records names os =
     (case Create os ''aggregate.csv'' of
        Inl err \<Rightarrow> (Inr (Some err), os)
      | Inr os1 \<Rightarrow>
         (case Writer_Write (NewWriter ''aggregate.csv'') [''Name'', ''Max'', ''Min'', ''Avg'', ''Len''] os1 of
            (Some err, w, os2) \<Rightarrow> (Inr (Some err), os2)
          | (None, w, os2) \<Rightarrow>
             (case write_groups w records names os2 of
                (Inl p, w', os3) \<Rightarrow> (Inl p, os3)
              | (Inr (Some err), w', os3) \<Rightarrow> (Inr (Some err), os3)
              | (Inr None, w', os3) \<Rightarrow> (case Flush w' os3 of (w'', os4) \<Rightarrow> (Inr (failure w''), os4)))))"

definition aggregate :: "SfnRecords \<Rightarrow> string list \<Rightarrow> OS \<Rightarrow> (panic + error option) \<times> OS" where
  "aggregate r names os = createAggregateCsvFile (aggregated r) names os"

subsection \<open>\<^verbatim>\<open>main\<close>\<close>

text \<open>
  \<^verbatim>\<open>main\<close> takes the value of the \<^verbatim>\<open>-profile\<close> flag, the outcome of
  \<^verbatim>\<open>createSfnSession\<close> (a client, or the panic of \<^verbatim>\<open>session.Must\<close>), the clock, the
  order in which the map of groups is ranged over, and the file system. It returns the
  panic it ends with, if any, and the file system it leaves.
\<close>

definition main ::
  "string \<Rightarrow> (string \<Rightarrow> panic + SFN) \<Rightarrow> (nat \<Rightarrow> Time) \<Rightarrow> string list \<Rightarrow> OS \<Rightarrow> panic option \<times> OS" where
  "main profile createSfnSession clock names os =
     (if profile = [] then (Some (PanicString ''profile is required''), os)
      else
        (case createSfnSession profile of
           Inl p \<Rightarrow> (Some p, os)
         | Inr svc \<Rightarrow>
            (case ListStateMachines svc of
               Inl err \<Rightarrow> (Some (PanicError err), os)
             | Inr machines \<Rightarrow>
                (case machines_loop svc clock machines (0, []) of
                   Inl p \<Rightarrow> (Some p, os)
                 | Inr (ticks, records) \<Rightarrow>
                    (case createCsvFile records os of
                       (Some err, os1) \<Rightarrow> (Some (PanicError err), os1)
                     | (None, os1) \<Rightarrow>
                        (case aggregate records names os1 of
                           (Inl p, os2) \<Rightarrow> (Some p, os2)
                         | (Inr (Some err), os2) \<Rightarrow> (Some (PanicError err), os2)
                         | (Inr None, os2) \<Rightarrow> (None, os2)))))))"

section \<open>Notions used to state the properties\<close>

text \<open>The sum of the durations of a group as a mathematical integer, without wrap-around.\<close>

definition exact_sum :: "SfnRecords \<Rightarrow> int" where
  "exact_sum r = (\<Sum>x\<leftarrow>r. sint (Duration x))"

text \<open>A record of workflow \<^verbatim>\<open>A\<close> with a given duration, for the concrete instances below.\<close>

definition example_record :: "Duration \<Rightarrow> SfnRecord" where
  "example_record d = \<lparr>Name = ''A'', StartDate = ''2024-01-01'', Duration = d, Status = ''SUCCEEDED''\<rparr>"

text \<open>
  Modelled from the spec: the repository has no reader for the files it writes, and the
  spec's round trip speaks of "parsing" the raw CSV. \<open>read_csv\<close> is a reader by the rules of
  RFC 4180 for files whose records end at a line feed: fields are separated by commas, a
  field that begins with a double quote runs to the closing quote, and a doubled quote
  inside it stands for one quote. Every byte inside a quoted field is kept as it is.
\<close>

datatype csv_state = FieldStart | Unquoted | Quoted | QuoteSeen

fun parse_csv :: "csv_state \<Rightarrow> string \<Rightarrow> string list \<Rightarrow> string \<Rightarrow> string list list" where
  "parse_csv st field row [] =
     (if st = FieldStart \<and> field = [] \<and> row = [] then [] else [row @ [field]])"
| "parse_csv FieldStart field row (c # cs) =
     (if c = CHR 0x22 then parse_csv Quoted [] row cs
      else if c = CHR '','' then parse_csv FieldStart [] (row @ [[]]) cs
      else if c = CHR 0x0A then (row @ [[]]) # parse_csv FieldStart [] [] cs
      else parse_csv Unquoted [c] row cs)"
| "parse_csv Unquoted field row (c # cs) =
     (if c = CHR '','' then parse_csv FieldStart [] (row @ [field]) cs
      else if c = CHR 0x0A then (row @ [field]) # parse_csv FieldStart [] [] cs
      else parse_csv Unquoted (field @ [c]) row cs)"
| "parse_csv Quoted field row (c # cs) =
     (if c = CHR 0x22 then parse_csv QuoteSeen field row cs
      else parse_csv Quoted (field @ [c]) row cs)"
| "parse_csv QuoteSeen field row (c # cs) =
     (if c = CHR 0x22 then parse_csv Quoted (field @ [CHR 0x22]) row cs
      else if c = CHR '','' then parse_csv FieldStart [] (row @ [field]) cs
      else if c = CHR 0x0A then (row @ [field]) # parse_csv FieldStart [] [] cs
      else parse_csv Unquoted (field @ [c]) row cs)"

definition read_csv :: "string \<Rightarrow> string list list" where
  "read_csv content = parse_csv FieldStart [] [] content"

text \<open>What the reader does once a field is complete, at the comma or line feed that follows it.\<close>

definition after_field :: "string list \<Rightarrow> string \<Rightarrow> string \<Rightarrow> string list list" where
  "after_field row field rest =
     (case rest of
        [] \<Rightarrow> [row @ [field]]
      | c # cs \<Rightarrow> if c = CHR '','' then parse_csv FieldStart [] (row @ [field]) cs
                  else (row @ [field]) # parse_csv FieldStart [] [] cs)"

text \<open>The row \<^verbatim>\<open>createCsvFile\<close> writes for a record, and the bytes it hands to the writer.\<close>

definition record_row :: "SfnRecord \<Rightarrow> string list" where
  "record_row r = [Name r, StartDate r, StringDurationSecond r, Status r]"

definition raw_csv :: "SfnRecords \<Rightarrow> string" where
  "raw_csv records =
     concat (map csv_line ([''Name'', ''StartDate'', ''Duration'', ''Status''] # map record_row records))"

section \<open>Arithmetic of \<^verbatim>\<open>int64\<close>\<close>

lemma sint_of_nat_len:
  assumes "n < 2 ^ 63"
  shows "sint (word_of_nat n :: int64) = int n"
  using assms by (simp add: signed_of_nat signed_take_bit_int_eq_self)

lemma div_less_of_less_mult:
  fixes s n hi :: int
  assumes "0 < n" "s < n * hi"
  shows "s div n < hi"
proof -
  have "n * (s div n) = s - s mod n" by (simp add: minus_mod_eq_mult_div)
  moreover have "0 \<le> s mod n" using assms(1) by simp
  ultimately have "n * (s div n) < n * hi" using assms(2) by linarith
  then show ?thesis using assms(1) by (simp add: mult_less_cancel_left_pos)
qed

lemma sdiv_lower:
  fixes s n lo :: int
  assumes n: "0 < n" and lo: "n * lo \<le> s"
  shows "lo \<le> s sdiv n"
proof -
  have "lo = (n * lo) div n" using n by simp
  also have "\<dots> \<le> s div n" using lo n by (intro zdiv_mono1) auto
  also have "\<dots> \<le> s sdiv n" by (simp add: signed_divide_int_eq_divide_int)
  finally show ?thesis .
qed

lemma sdiv_upper:
  fixes s n hi :: int
  assumes n: "0 < n" and hi: "s \<le> n * hi"
  shows "s sdiv n \<le> hi"
proof (cases "n dvd s")
  case True
  then have "s sdiv n = s div n" by (simp add: signed_divide_int_eq_divide_int)
  also have "\<dots> \<le> (n * hi) div n" using hi n by (intro zdiv_mono1) auto
  also have "\<dots> = hi" using n by simp
  finally show ?thesis .
next
  case False
  then have "s \<noteq> n * hi" by auto
  with hi have "s < n * hi" by simp
  then have "s div n < hi" using n by (simp add: div_less_of_less_mult)
  moreover have "s sdiv n \<le> s div n + 1" by (simp add: signed_divide_int_eq_divide_int)
  ultimately show ?thesis by simp
qed

section \<open>The loops of \<^verbatim>\<open>MaxDuration\<close>, \<^verbatim>\<open>MinDuration\<close> and \<^verbatim>\<open>AvgDuration\<close>\<close>

lemma fold_max_ge:
  "sint a \<le> sint (fold (\<lambda>record mx. if mx <s Duration record then Duration record else mx) r a)"
  by (induction r arbitrary: a) (auto simp: word_sless_alt intro: order_trans less_imp_le)

lemma fold_max_upper:
  "x \<in> set r \<Longrightarrow>
   sint (Duration x) \<le> sint (fold (\<lambda>record mx. if mx <s Duration record then Duration record else mx) r a)"
proof (induction r arbitrary: a)
  case Nil
  then show ?case by simp
next
  case (Cons y r)
  show ?case
  proof (cases "x = y")
    case True
    have "sint (Duration y) \<le> sint (if a <s Duration y then Duration y else a)"
      by (simp add: word_sless_alt)
    also have "\<dots> \<le> sint (fold (\<lambda>record mx. if mx <s Duration record then Duration record else mx) r
        (if a <s Duration y then Duration y else a))"
      by (rule fold_max_ge)
    finally show ?thesis using True by simp
  next
    case False
    with Cons.prems have "x \<in> set r" by simp
    then show ?thesis using Cons.IH by simp
  qed
qed

lemma fold_max_mem:
  "fold (\<lambda>record mx. if mx <s Duration record then Duration record else mx) r a \<in> insert a (Duration ` set r)"
  by (induction r arbitrary: a) auto

lemma fold_min_le:
  "sint (fold (\<lambda>record mn. if Duration record <s mn then Duration record else mn) r a) \<le> sint a"
  by (induction r arbitrary: a) (auto simp: word_sless_alt intro: order_trans less_imp_le)

lemma fold_min_lower:
  "x \<in> set r \<Longrightarrow>
   sint (fold (\<lambda>record mn. if Duration record <s mn then Duration record else mn) r a) \<le> sint (Duration x)"
proof (induction r arbitrary: a)
  case Nil
  then show ?case by simp
next
  case (Cons y r)
  show ?case
  proof (cases "x = y")
    case True
    have "sint (fold (\<lambda>record mn. if Duration record <s mn then Duration record else mn) r
        (if Duration y <s a then Duration y else a))
        \<le> sint (if Duration y <s a then Duration y else a)"
      by (rule fold_min_le)
    also have "\<dots> \<le> sint (Duration y)"
      by (simp add: word_sless_alt)
    finally show ?thesis using True by simp
  next
    case False
    with Cons.prems have "x \<in> set r" by simp
    then show ?thesis using Cons.IH by simp
  qed
qed

lemma fold_min_mem:
  "fold (\<lambda>record mn. if Duration record <s mn then Duration record else mn) r a \<in> insert a (Duration ` set r)"
  by (induction r arbitrary: a) auto

lemma fold_total:
  "fold (\<lambda>record total. total + Duration record) r a = a + (\<Sum>x\<leftarrow>r. Duration x)"
  by (induction r arbitrary: a) (simp_all add: add.assoc)

lemma word_of_int_exact_sum:
  "(word_of_int (exact_sum r) :: int64) = (\<Sum>x\<leftarrow>r. Duration x)"
  by (induction r) (simp_all add: exact_sum_def)

lemma sint_total:
  assumes "- (2 ^ 63) \<le> exact_sum r" "exact_sum r < 2 ^ 63"
  shows "sint (\<Sum>x\<leftarrow>r. Duration x) = exact_sum r"
proof -
  have "sint (word_of_int (exact_sum r) :: int64) = exact_sum r"
    using assms by (simp add: sint_sbintrunc' signed_take_bit_int_eq_self)
  then show ?thesis by (simp add: word_of_int_exact_sum)
qed

lemma exact_sum_le:
  "(\<And>x. x \<in> set r \<Longrightarrow> sint (Duration x) \<le> m) \<Longrightarrow> exact_sum r \<le> int (length r) * m"
  by (induction r) (auto simp: exact_sum_def algebra_simps intro: add_mono)

lemma exact_sum_ge:
  "(\<And>x. x \<in> set r \<Longrightarrow> m \<le> sint (Duration x)) \<Longrightarrow> int (length r) * m \<le> exact_sum r"
  by (induction r) (auto simp: exact_sum_def algebra_simps intro: add_mono)

section \<open>Minimum, average and maximum of a group\<close>

text \<open>
  Claim C9, as amended. For every non-empty group whose length fits an \<^verbatim>\<open>int\<close> and whose
  durations add up, as mathematical integers, to a value in the \<^verbatim>\<open>int64\<close> range, the three
  methods return without a panic and \<^verbatim>\<open>min \<le> avg \<le> max\<close> holds in the signed order:
  the smallest duration is at most the truncating-division average, which is at most the
  largest duration.
\<close>

theorem avg_between_min_and_max:
  assumes ne: "r \<noteq> []" and len: "length r < 2 ^ 63"
    and lo: "- (2 ^ 63) \<le> exact_sum r" and hi: "exact_sum r < 2 ^ 63"
  shows "\<exists>mn av mx. MinDuration r = Inr mn \<and> AvgDuration r = Inr av \<and> MaxDuration r = Inr mx
           \<and> mn \<le>s av \<and> av \<le>s mx"
proof -
  obtain r0 rs where r: "r = r0 # rs" using ne by (cases r) auto
  define mn where "mn = fold (\<lambda>record mn. if Duration record <s mn then Duration record else mn) r (Duration r0)"
  define mx where "mx = fold (\<lambda>record mx. if mx <s Duration record then Duration record else mx) r (Duration r0)"
  define n where "n = int (length r)"
  have npos: "0 < n" using ne by (simp add: n_def)
  have wn: "sint (word_of_nat (length r) :: int64) = n"
    using len by (simp add: sint_of_nat_len n_def)
  then have wn0: "(word_of_nat (length r) :: int64) \<noteq> 0" using npos by auto
  define av where "av = int64_quo (\<Sum>x\<leftarrow>r. Duration x) (word_of_nat (length r))"
  have Min: "MinDuration r = Inr mn" by (simp add: MinDuration_def r mn_def)
  have Max: "MaxDuration r = Inr mx" by (simp add: MaxDuration_def r mx_def)
  have Avg: "AvgDuration r = Inr av"
    using wn0 by (simp add: AvgDuration_def Let_def fold_total av_def)
  have q_range: "sint mn \<le> exact_sum r sdiv n \<and> exact_sum r sdiv n \<le> sint mx"
  proof
    have "n * sint mn \<le> exact_sum r"
      unfolding n_def mn_def by (rule exact_sum_ge) (rule fold_min_lower)
    then show "sint mn \<le> exact_sum r sdiv n" using npos by (rule sdiv_lower[rotated])
    have "exact_sum r \<le> n * sint mx"
      unfolding n_def mx_def by (rule exact_sum_le) (rule fold_max_upper)
    then show "exact_sum r sdiv n \<le> sint mx" using npos by (rule sdiv_upper[rotated])
  qed
  have "- (2 ^ 63) \<le> sint mn" "sint mx < 2 ^ 63"
    using sint_range_size[of mn] sint_range_size[of mx] by (simp_all add: word_size)
  with q_range have "- (2 ^ 63) \<le> exact_sum r sdiv n" "exact_sum r sdiv n < 2 ^ 63" by linarith+
  then have "sint av = exact_sum r sdiv n"
    by (simp add: av_def int64_quo_def wn sint_total[OF lo hi] sint_sbintrunc' signed_take_bit_int_eq_self)
  with q_range have "mn \<le>s av \<and> av \<le>s mx" by (simp add: word_sle_eq)
  with Min Max Avg show ?thesis by blast
qed

text \<open>The amended claim at the group of durations 10 s, 20 s and 30 s.\<close>

theorem avg_between_min_and_max_witness:
  "[example_record 10000000000, example_record 20000000000, example_record 30000000000] \<noteq> []
   \<and> length [example_record 10000000000, example_record 20000000000, example_record 30000000000] < 2 ^ 63
   \<and> - (2 ^ 63) \<le> exact_sum [example_record 10000000000, example_record 20000000000, example_record 30000000000]
   \<and> exact_sum [example_record 10000000000, example_record 20000000000, example_record 30000000000] < 2 ^ 63
   \<and> (\<exists>mn av mx.
        MinDuration [example_record 10000000000, example_record 20000000000, example_record 30000000000] = Inr mn
      \<and> AvgDuration [example_record 10000000000, example_record 20000000000, example_record 30000000000] = Inr av
      \<and> MaxDuration [example_record 10000000000, example_record 20000000000, example_record 30000000000] = Inr mx
      \<and> mn \<le>s av \<and> av \<le>s mx)"
proof -
  have h1: "[example_record 10000000000, example_record 20000000000, example_record 30000000000] \<noteq> []"
    by simp
  have h2: "length [example_record 10000000000, example_record 20000000000, example_record 30000000000] < 2 ^ 63"
    by simp
  have h3: "- (2 ^ 63) \<le> exact_sum [example_record 10000000000, example_record 20000000000, example_record 30000000000]"
    by (simp add: exact_sum_def example_record_def)
  have h4: "exact_sum [example_record 10000000000, example_record 20000000000, example_record 30000000000] < 2 ^ 63"
    by (simp add: exact_sum_def example_record_def)
  from avg_between_min_and_max [OF h1 h2 h3 h4] h1 h2 h3 h4 show ?thesis by blast
qed

text \<open>
  Claim C9 as stated fails where the \<^verbatim>\<open>int64\<close> sum wraps around: two durations of
  \<open>2\<^sup>6\<^sup>2\<close> ns add up to \<open>- 2\<^sup>6\<^sup>3\<close>, so the average is \<open>- 2\<^sup>6\<^sup>2\<close>, below the
  minimum \<open>2\<^sup>6\<^sup>2\<close>.
\<close>

theorem avg_below_min_counterexample:
  "MinDuration [example_record 4611686018427387904, example_record 4611686018427387904] = Inr 4611686018427387904
   \<and> AvgDuration [example_record 4611686018427387904, example_record 4611686018427387904] = Inr (- 4611686018427387904)
   \<and> (- 4611686018427387904 :: int64) <s 4611686018427387904"
  by (simp add: MinDuration_def AvgDuration_def example_record_def int64_quo_def word_sless_alt
      signed_divide_int_def)

section \<open>The body of the loop over the executions\<close>

lemma sint_word_of_int64:
  "- (2 ^ 63) \<le> k \<Longrightarrow> k < 2 ^ 63 \<Longrightarrow> sint (word_of_int k :: int64) = k"
  by (simp add: sint_sbintrunc' signed_take_bit_int_eq_self)

lemma sint_Sub:
  "sint (Sub t u) = max (- (2 ^ 63)) (min (2 ^ 63 - 1) (unixNano t - unixNano u))"
proof -
  define d where "d = unixNano t - unixNano u"
  have main: "sint (if d < - (2 ^ 63) then word_of_int (- (2 ^ 63)) :: int64
              else if 2 ^ 63 - 1 < d then word_of_int (2 ^ 63 - 1)
              else word_of_int d)
        = max (- (2 ^ 63)) (min (2 ^ 63 - 1) d)"
  proof (cases "d < - (2 ^ 63)")
    case True
    then show ?thesis by (simp add: max_def min_def)
  next
    case False
    note lo = this
    show ?thesis
    proof (cases "2 ^ 63 - 1 < d")
      case True
      then show ?thesis using lo by (simp add: max_def min_def)
    next
      case False
      with lo have "sint (word_of_int d :: int64) = d"
        by (intro sint_word_of_int64) auto
      then show ?thesis using lo False by (simp add: max_def min_def)
    qed
  qed
  show ?thesis unfolding Sub_def Let_def d_def [symmetric] by (fact main)
qed

lemma Sub_nonneg_iff: "0 \<le>s Sub stop start \<longleftrightarrow> unixNano start \<le> unixNano stop"
  by (simp add: word_sle_eq sint_Sub max_def min_def)

text \<open>What a run of the body that does not panic has done: nothing, or appended one record.\<close>

lemma execution_body_cases:
  assumes "execution_body clock machine execution (tick, records) = Inr (tick', records')"
  shows "records' = records
       \<or> (\<exists>start stop arn name status.
            ExecutionListItem.StartDate execution = Some start \<and> StopDate execution = Some stop
          \<and> \<not> Before start (AddDate (clock tick) 0 (- 2) 0)
          \<and> StateMachineArn machine = Some arn
          \<and> index (Split arn CHR '':'') 6 = Inr name
          \<and> ExecutionListItem.Status execution = Some status
          \<and> records' = records @ [\<lparr>Name = name, StartDate = Format_DateOnly start,
                                     Duration = Sub stop start, Status = status\<rparr>])"
  using assms
  by (auto simp: execution_body_def Let_def split: option.splits if_splits sum.splits)

text \<open>
  Two months before 2024-02-15T12:00:00Z is 2023-12-15T12:00:00Z. In New York, two months
  before 2024-04-15T12:00:00-04:00 (16:00Z) is 2024-02-15T12:00:00-05:00 (17:00Z): the
  offset in force in February applies to the cutoff.
\<close>

lemma cutoff_example:
  "unixNano (AddDate \<lparr>unixNano = 1707998400000000000, location = UTC\<rparr> 0 (- 2) 0)
     = 1702641600000000000"
  by code_simp

lemma cutoff_example_New_York:
  "unixNano (AddDate \<lparr>unixNano = 1713196800000000000, location = New_York\<rparr> 0 (- 2) 0)
     = 1708016400000000000"
  by code_simp

section \<open>Executions without a start or a stop timestamp\<close>

text \<open>
  Claim C4. For every execution lacking either a start timestamp or a stop timestamp, no
  record is produced: the body of the loop leaves the list of records as it is (and
  neither reads the clock nor panics).
\<close>

theorem missing_timestamp_skipped:
  assumes "ExecutionListItem.StartDate execution = None \<or> StopDate execution = None"
  shows "execution_body clock machine execution (tick, records) = Inr (tick, records)"
  using assms by (auto simp: execution_body_def split: option.splits)

text \<open>Claim C4 at an execution that is still running: it has no stop timestamp.\<close>

theorem missing_timestamp_skipped_witness:
  "(ExecutionListItem.StartDate
      \<lparr>ExecutionListItem.StartDate = Some \<lparr>unixNano = 1704067200000000000, location = UTC\<rparr>,
       StopDate = None, ExecutionListItem.Status = Some ''RUNNING''\<rparr> = None
    \<or> StopDate
      \<lparr>ExecutionListItem.StartDate = Some \<lparr>unixNano = 1704067200000000000, location = UTC\<rparr>,
       StopDate = None, ExecutionListItem.Status = Some ''RUNNING''\<rparr> = None)
   \<and> execution_body (\<lambda>n. \<lparr>unixNano = 1707998400000000000, location = UTC\<rparr>)
        \<lparr>StateMachineArn = Some ''arn:aws:states:us-east-1:123456789012:stateMachine:B''\<rparr>
        \<lparr>ExecutionListItem.StartDate = Some \<lparr>unixNano = 1704067200000000000, location = UTC\<rparr>,
         StopDate = None, ExecutionListItem.Status = Some ''RUNNING''\<rparr>
        (0, []) = Inr (0, [])"
proof -
  have h: "ExecutionListItem.StartDate
      \<lparr>ExecutionListItem.StartDate = Some \<lparr>unixNano = 1704067200000000000, location = UTC\<rparr>,
       StopDate = None, ExecutionListItem.Status = Some ''RUNNING''\<rparr> = None
    \<or> StopDate
      \<lparr>ExecutionListItem.StartDate = Some \<lparr>unixNano = 1704067200000000000, location = UTC\<rparr>,
       StopDate = None, ExecutionListItem.Status = Some ''RUNNING''\<rparr> = None"
    by simp
  from missing_timestamp_skipped [OF h] h show ?thesis by blast
qed

section \<open>The retention window\<close>

text \<open>
  Claim C3. For an execution with both timestamps, the cutoff is the clock reading moved
  back two calendar months by \<^verbatim>\<open>AddDate\<close>, in the location of the clock and with the
  offset that location has in force at the cutoff. If the start timestamp is strictly
  earlier than the cutoff,
  no record is produced. If it is at the cutoff or later, the execution is not skipped:
  with an ARN of at least seven fields and a status, its record is appended. The boundary
  is inclusive.
\<close>

theorem retention_window:
  assumes "ExecutionListItem.StartDate execution = Some start" and "StopDate execution = Some stop"
  shows "(Before start (AddDate (clock tick) 0 (- 2) 0) \<longrightarrow>
            execution_body clock machine execution (tick, records) = Inr (Suc tick, records))
       \<and> (unixNano (AddDate (clock tick) 0 (- 2) 0) \<le> unixNano start \<longrightarrow>
            StateMachineArn machine = Some arn \<longrightarrow>
            index (Split arn CHR '':'') 6 = Inr name \<longrightarrow>
            ExecutionListItem.Status execution = Some status \<longrightarrow>
            execution_body clock machine execution (tick, records) =
              Inr (Suc tick, records @ [\<lparr>Name = name, StartDate = Format_DateOnly start,
                                         Duration = Sub stop start, Status = status\<rparr>]))"
  using assms by (simp add: execution_body_def Before_def Let_def)

text \<open>
  Claim C3 with the clock at 2024-02-15T12:00:00Z: an execution that started one nanosecond
  before 2023-12-15T12:00:00Z is skipped, and one that started at that instant exactly is
  kept.
\<close>

theorem retention_window_witness:
  "execution_body (\<lambda>n. \<lparr>unixNano = 1707998400000000000, location = UTC\<rparr>)
     \<lparr>StateMachineArn = Some ''arn:aws:states:us-east-1:123456789012:stateMachine:A''\<rparr>
     \<lparr>ExecutionListItem.StartDate = Some \<lparr>unixNano = 1702641599999999999, location = UTC\<rparr>,
      StopDate = Some \<lparr>unixNano = 1702641660000000000, location = UTC\<rparr>,
      ExecutionListItem.Status = Some ''SUCCEEDED''\<rparr>
     (0, []) = Inr (Suc 0, [])
   \<and> execution_body (\<lambda>n. \<lparr>unixNano = 1707998400000000000, location = UTC\<rparr>)
     \<lparr>StateMachineArn = Some ''arn:aws:states:us-east-1:123456789012:stateMachine:A''\<rparr>
     \<lparr>ExecutionListItem.StartDate = Some \<lparr>unixNano = 1702641600000000000, location = UTC\<rparr>,
      StopDate = Some \<lparr>unixNano = 1702641660000000000, location = UTC\<rparr>,
      ExecutionListItem.Status = Some ''SUCCEEDED''\<rparr>
     (0, []) =
       Inr (Suc 0, [] @ [\<lparr>Name = ''A'',
              StartDate = Format_DateOnly \<lparr>unixNano = 1702641600000000000, location = UTC\<rparr>,
              Duration = Sub \<lparr>unixNano = 1702641660000000000, location = UTC\<rparr>
                             \<lparr>unixNano = 1702641600000000000, location = UTC\<rparr>,
              Status = ''SUCCEEDED''\<rparr>])"
proof -
  let ?clock = "\<lambda>n::nat. \<lparr>unixNano = 1707998400000000000, location = UTC\<rparr>"
  let ?machine = "\<lparr>StateMachineArn = Some ''arn:aws:states:us-east-1:123456789012:stateMachine:A''\<rparr>"
  let ?early = "\<lparr>unixNano = 1702641599999999999, location = UTC\<rparr>"
  let ?edge = "\<lparr>unixNano = 1702641600000000000, location = UTC\<rparr>"
  let ?stop = "\<lparr>unixNano = 1702641660000000000, location = UTC\<rparr>"
  let ?e1 = "\<lparr>ExecutionListItem.StartDate = Some ?early, StopDate = Some ?stop,
      ExecutionListItem.Status = Some ''SUCCEEDED''\<rparr>"
  let ?e2 = "\<lparr>ExecutionListItem.StartDate = Some ?edge, StopDate = Some ?stop,
      ExecutionListItem.Status = Some ''SUCCEEDED''\<rparr>"
  have before: "Before ?early (AddDate (?clock 0) 0 (- 2) 0)"
    by (simp add: cutoff_example Before_def)
  have at_cutoff: "unixNano (AddDate (?clock 0) 0 (- 2) 0) \<le> unixNano ?edge"
    by (simp add: cutoff_example)
  have name: "index (Split ''arn:aws:states:us-east-1:123456789012:stateMachine:A'' CHR '':'') 6 = Inr ''A''"
    by (simp add: index_def)
  have skipped: "execution_body ?clock ?machine ?e1 (0, []) = Inr (Suc 0, [])"
    using retention_window [of ?e1 ?early ?stop ?clock 0 ?machine "[]"] before by simp
  have kept: "execution_body ?clock ?machine ?e2 (0, []) =
      Inr (Suc 0, [] @ [\<lparr>Name = ''A'', StartDate = Format_DateOnly ?edge,
                          Duration = Sub ?stop ?edge, Status = ''SUCCEEDED''\<rparr>])"
    using retention_window [of ?e2 ?edge ?stop ?clock 0 ?machine "[]"
        "''arn:aws:states:us-east-1:123456789012:stateMachine:A''" "''A''" "''SUCCEEDED''"]
      at_cutoff name by simp
  from skipped kept show ?thesis by (rule conjI)
qed

text \<open>
  The same boundary on a clock in New York at 2024-04-15T12:00:00-04:00: the cutoff is
  2024-02-15T17:00:00Z, so an execution that started at 16:30Z is skipped and one that
  started at 17:00Z is kept.
\<close>

lemma retention_window_New_York:
  "execution_body (\<lambda>n. \<lparr>unixNano = 1713196800000000000, location = New_York\<rparr>)
     \<lparr>StateMachineArn = Some ''arn:aws:states:us-east-1:123456789012:stateMachine:A''\<rparr>
     \<lparr>ExecutionListItem.StartDate = Some \<lparr>unixNano = 1708014600000000000, location = UTC\<rparr>,
      StopDate = Some \<lparr>unixNano = 1708014660000000000, location = UTC\<rparr>,
      ExecutionListItem.Status = Some ''SUCCEEDED''\<rparr>
     (0, []) = Inr (1, [])
   \<and> execution_body (\<lambda>n. \<lparr>unixNano = 1713196800000000000, location = New_York\<rparr>)
     \<lparr>StateMachineArn = Some ''arn:aws:states:us-east-1:123456789012:stateMachine:A''\<rparr>
     \<lparr>ExecutionListItem.StartDate = Some \<lparr>unixNano = 1708016400000000000, location = UTC\<rparr>,
      StopDate = Some \<lparr>unixNano = 1708016460000000000, location = UTC\<rparr>,
      ExecutionListItem.Status = Some ''SUCCEEDED''\<rparr>
     (0, []) =
       Inr (1, [\<lparr>Name = ''A'', StartDate = ''2024-02-15'', Duration = 60000000000, Status = ''SUCCEEDED''\<rparr>])"
  by code_simp

section \<open>The sign of the duration\<close>

text \<open>
  Claim C6, as amended. Every record the loop body creates comes from an execution that
  has both timestamps, and its duration is the stop timestamp minus the start timestamp
  of that execution, as \<^verbatim>\<open>Sub\<close> computes it. The duration is non-negative exactly
  when the stop timestamp is not earlier than the start timestamp: the program does not
  compare the two.
\<close>

theorem created_record_duration:
  assumes "execution_body clock machine execution (tick, records) = Inr (tick', records')"
    and "records' \<noteq> records"
  shows "\<exists>start stop r.
           ExecutionListItem.StartDate execution = Some start \<and> StopDate execution = Some stop
         \<and> records' = records @ [r]
         \<and> Duration r = Sub stop start
         \<and> (0 \<le>s Duration r \<longleftrightarrow> unixNano start \<le> unixNano stop)"
proof -
  from execution_body_cases [OF assms(1)] assms(2)
  obtain start stop arn name status where
    "ExecutionListItem.StartDate execution = Some start" "StopDate execution = Some stop"
    "records' = records @ [\<lparr>Name = name, StartDate = Format_DateOnly start,
                             Duration = Sub stop start, Status = status\<rparr>]"
    by blast
  then show ?thesis by (auto simp: Sub_nonneg_iff)
qed

text \<open>
  Claim C6 as stated fails: an execution whose stop timestamp lies 60 s before its start
  timestamp passes both filters and yields a record with the duration \<open>- 60\<close> s.
\<close>

theorem negative_duration_counterexample:
  "execution_body (\<lambda>n. \<lparr>unixNano = 1707998400000000000, location = UTC\<rparr>)
        \<lparr>StateMachineArn = Some ''arn:aws:states:us-east-1:123456789012:stateMachine:A''\<rparr>
        \<lparr>ExecutionListItem.StartDate = Some \<lparr>unixNano = 1704067260000000000, location = UTC\<rparr>,
         StopDate = Some \<lparr>unixNano = 1704067200000000000, location = UTC\<rparr>,
         ExecutionListItem.Status = Some ''SUCCEEDED''\<rparr>
        (0, [])
      = Inr (1, [\<lparr>Name = ''A'', StartDate = ''2024-01-01'', Duration = - 60000000000, Status = ''SUCCEEDED''\<rparr>])
   \<and> (- 60000000000 :: int64) <s 0"
  by code_simp

text \<open>The amended claim C6 at the execution of one minute that started on 2024-01-01.\<close>

theorem created_record_duration_witness:
  "execution_body (\<lambda>n. \<lparr>unixNano = 1707998400000000000, location = UTC\<rparr>)
        \<lparr>StateMachineArn = Some ''arn:aws:states:us-east-1:123456789012:stateMachine:A''\<rparr>
        \<lparr>ExecutionListItem.StartDate = Some \<lparr>unixNano = 1704067200000000000, location = UTC\<rparr>,
         StopDate = Some \<lparr>unixNano = 1704067260000000000, location = UTC\<rparr>,
         ExecutionListItem.Status = Some ''SUCCEEDED''\<rparr>
        (0, [])
      = Inr (1, [\<lparr>Name = ''A'', StartDate = ''2024-01-01'', Duration = 60000000000, Status = ''SUCCEEDED''\<rparr>])
   \<and> [\<lparr>Name = ''A'', StartDate = ''2024-01-01'', Duration = 60000000000, Status = ''SUCCEEDED''\<rparr>] \<noteq> []
   \<and> (\<exists>start stop r.
           ExecutionListItem.StartDate
             \<lparr>ExecutionListItem.StartDate = Some \<lparr>unixNano = 1704067200000000000, location = UTC\<rparr>,
              StopDate = Some \<lparr>unixNano = 1704067260000000000, location = UTC\<rparr>,
              ExecutionListItem.Status = Some ''SUCCEEDED''\<rparr> = Some start
         \<and> StopDate
             \<lparr>ExecutionListItem.StartDate = Some \<lparr>unixNano = 1704067200000000000, location = UTC\<rparr>,
              StopDate = Some \<lparr>unixNano = 1704067260000000000, location = UTC\<rparr>,
              ExecutionListItem.Status = Some ''SUCCEEDED''\<rparr> = Some stop
         \<and> [\<lparr>Name = ''A'', StartDate = ''2024-01-01'', Duration = 60000000000, Status = ''SUCCEEDED''\<rparr>]
             = [] @ [r]
         \<and> Duration r = Sub stop start
         \<and> (0 \<le>s Duration r \<longleftrightarrow> unixNano start \<le> unixNano stop))"
proof -
  have run: "execution_body (\<lambda>n. \<lparr>unixNano = 1707998400000000000, location = UTC\<rparr>)
        \<lparr>StateMachineArn = Some ''arn:aws:states:us-east-1:123456789012:stateMachine:A''\<rparr>
        \<lparr>ExecutionListItem.StartDate = Some \<lparr>unixNano = 1704067200000000000, location = UTC\<rparr>,
         StopDate = Some \<lparr>unixNano = 1704067260000000000, location = UTC\<rparr>,
         ExecutionListItem.Status = Some ''SUCCEEDED''\<rparr>
        (0, [])
      = Inr (1, [\<lparr>Name = ''A'', StartDate = ''2024-01-01'', Duration = 60000000000, Status = ''SUCCEEDED''\<rparr>])"
    by code_simp
  have new: "[\<lparr>Name = ''A'', StartDate = ''2024-01-01'', Duration = 60000000000, Status = ''SUCCEEDED''\<rparr>] \<noteq> []"
    by simp
  from created_record_duration [OF run new] run new show ?thesis by blast
qed

section \<open>The groups of \<^verbatim>\<open>aggregate\<close>\<close>

lemma fold_aggregated:
  fixes r :: SfnRecords
  shows "fold (\<lambda>record m. m(Name record \<mapsto> (case m (Name record) of None \<Rightarrow> [] | Some g \<Rightarrow> g) @ [record])) r m0 name
     = (case m0 name of
          None \<Rightarrow> (if filter (\<lambda>x. Name x = name) r = [] then None else Some (filter (\<lambda>x. Name x = name) r))
        | Some g \<Rightarrow> Some (g @ filter (\<lambda>x. Name x = name) r))"
proof -
  define step :: "SfnRecord \<Rightarrow> AggregatedRecordMap \<Rightarrow> AggregatedRecordMap"
    where "step = (\<lambda>record m. m(Name record \<mapsto> (case m (Name record) of None \<Rightarrow> [] | Some g \<Rightarrow> g) @ [record]))"
  have "fold step r m0 name
     = (case m0 name of
          None \<Rightarrow> (if filter (\<lambda>x. Name x = name) r = [] then None else Some (filter (\<lambda>x. Name x = name) r))
        | Some g \<Rightarrow> Some (g @ filter (\<lambda>x. Name x = name) r))"
  proof (induction r arbitrary: m0)
    case Nil
    then show ?case by (simp split: option.splits)
  next
    case (Cons x r)
    have "fold step (x # r) m0 name = fold step r (step x m0) name" by simp
    also have "\<dots> = (case step x m0 name of
          None \<Rightarrow> (if filter (\<lambda>x. Name x = name) r = [] then None else Some (filter (\<lambda>x. Name x = name) r))
        | Some g \<Rightarrow> Some (g @ filter (\<lambda>x. Name x = name) r))"
      by (rule Cons.IH)
    also have "\<dots> = (case m0 name of
          None \<Rightarrow> (if filter (\<lambda>x. Name x = name) (x # r) = [] then None
                   else Some (filter (\<lambda>x. Name x = name) (x # r)))
        | Some g \<Rightarrow> Some (g @ filter (\<lambda>x. Name x = name) (x # r)))"
      by (simp add: step_def split: option.splits)
    finally show ?case .
  qed
  then show ?thesis by (simp add: step_def)
qed

lemma aggregated_eq:
  "aggregated r name =
     (if filter (\<lambda>x. Name x = name) r = [] then None else Some (filter (\<lambda>x. Name x = name) r))"
  by (simp add: aggregated_def fold_aggregated)

lemma aggregated_group:
  assumes "aggregated r name = Some g"
  shows "g = filter (\<lambda>x. Name x = name) r" and "g \<noteq> []" and "length g \<le> length r"
  using assms by (auto simp: aggregated_eq split: if_splits intro: le_trans)

lemma MaxDuration_nonempty:
  assumes "g \<noteq> []"
  shows "\<exists>mx. MaxDuration g = Inr mx \<and> mx \<in> Duration ` set g \<and> (\<forall>x\<in>set g. Duration x \<le>s mx)"
proof -
  obtain g0 gs where g: "g = g0 # gs" using assms by (cases g) auto
  define mx where "mx = fold (\<lambda>record mx. if mx <s Duration record then Duration record else mx) g (Duration g0)"
  have "MaxDuration g = Inr mx" by (simp add: MaxDuration_def g mx_def)
  moreover have "mx \<in> Duration ` set g"
    using fold_max_mem [of g "Duration g0"] by (auto simp: mx_def g)
  moreover have "\<forall>x\<in>set g. Duration x \<le>s mx"
    using fold_max_upper [of _ g "Duration g0"] by (auto simp: mx_def word_sle_eq)
  ultimately show ?thesis by blast
qed

lemma MinDuration_nonempty:
  assumes "g \<noteq> []"
  shows "\<exists>mn. MinDuration g = Inr mn \<and> mn \<in> Duration ` set g \<and> (\<forall>x\<in>set g. mn \<le>s Duration x)"
proof -
  obtain g0 gs where g: "g = g0 # gs" using assms by (cases g) auto
  define mn where "mn = fold (\<lambda>record mn. if Duration record <s mn then Duration record else mn) g (Duration g0)"
  have "MinDuration g = Inr mn" by (simp add: MinDuration_def g mn_def)
  moreover have "mn \<in> Duration ` set g"
    using fold_min_mem [of g "Duration g0"] by (auto simp: mn_def g)
  moreover have "\<forall>x\<in>set g. mn \<le>s Duration x"
    using fold_min_lower [of _ g "Duration g0"] by (auto simp: mn_def word_sle_eq)
  ultimately show ?thesis by blast
qed

lemma AvgDuration_nonempty:
  assumes "g \<noteq> []" and "length g < 2 ^ 63"
  shows "AvgDuration g = Inr (int64_quo (\<Sum>x\<leftarrow>g. Duration x) (word_of_nat (length g)))"
proof -
  have "sint (word_of_nat (length g) :: int64) = int (length g)"
    using assms(2) by (rule sint_of_nat_len)
  moreover have "0 < int (length g)" using assms(1) by simp
  ultimately have "(word_of_nat (length g) :: int64) \<noteq> 0" by auto
  then show ?thesis by (simp add: AvgDuration_def Let_def fold_total)
qed


lemma write_groups_no_panic:
  assumes "length r < 2 ^ 63"
  shows "fst (write_groups w (aggregated r) names os) \<noteq> Inl p"
proof (induction names arbitrary: w os)
  case Nil
  then show ?case by simp
next
  case (Cons name names)
  show ?case
  proof (cases "aggregated r name")
    case None
    then show ?thesis using Cons.IH by simp
  next
    case (Some g)
    have "length g \<le> length r" by (rule aggregated_group(3) [OF Some])
    with assms have "length g < 2 ^ 63" by simp
    with aggregated_group(2) [OF Some] have g: "g \<noteq> []" "length g < 2 ^ 63" by simp_all
    obtain mx where mx: "MaxDuration g = Inr mx" using MaxDuration_nonempty [OF g(1)] by blast
    obtain mn where mn: "MinDuration g = Inr mn" using MinDuration_nonempty [OF g(1)] by blast
    note av = AvgDuration_nonempty [OF g]
    show ?thesis using Cons.IH
      by (simp add: Some mx mn av split: prod.splits option.splits)
  qed
qed

lemma aggregate_no_panic:
  assumes "length r < 2 ^ 63"
  shows "fst (aggregate r names os) \<noteq> Inl p"
proof -
  have "False" if "write_groups w (aggregated r) names os' = (Inl p, w', os'')" for w os' w' os''
    using write_groups_no_panic [OF assms, of w names os' p] that by simp
  then show ?thesis
    by (auto simp: aggregate_def createAggregateCsvFile_def split: sum.splits prod.splits option.splits)
qed

text \<open>
  Claim C7. Every group of the map built by \<^verbatim>\<open>aggregate\<close> holds at least one record, so
  \<^verbatim>\<open>MaxDuration\<close>, \<^verbatim>\<open>MinDuration\<close> and \<^verbatim>\<open>AvgDuration\<close> return for it without the
  panic of an index out of range or of a division by zero, and \<^verbatim>\<open>aggregate\<close> as a whole
  never panics. (The length of a Go slice is below \<open>2\<^sup>6\<^sup>3\<close>.)
\<close>

theorem groups_never_empty:
  assumes "length r < 2 ^ 63"
  shows "(aggregated r name = Some g \<longrightarrow>
            g \<noteq> [] \<and> (\<exists>mx mn av. MaxDuration g = Inr mx \<and> MinDuration g = Inr mn \<and> AvgDuration g = Inr av))
       \<and> (\<forall>p. fst (aggregate r names os) \<noteq> Inl p)"
proof (intro conjI impI allI)
  assume a: "aggregated r name = Some g"
  show "g \<noteq> []" by (rule aggregated_group(2) [OF a])
  have "length g \<le> length r" by (rule aggregated_group(3) [OF a])
  with assms have len: "length g < 2 ^ 63" by simp
  from MaxDuration_nonempty [OF \<open>g \<noteq> []\<close>] MinDuration_nonempty [OF \<open>g \<noteq> []\<close>]
    AvgDuration_nonempty [OF \<open>g \<noteq> []\<close> len]
  show "\<exists>mx mn av. MaxDuration g = Inr mx \<and> MinDuration g = Inr mn \<and> AvgDuration g = Inr av"
    by blast
next
  fix p show "fst (aggregate r names os) \<noteq> Inl p" using assms by (rule aggregate_no_panic)
qed

text \<open>Claim C7 at the three records of workflow \<^verbatim>\<open>A\<close>, which form one group.\<close>

theorem groups_never_empty_witness:
  "length [example_record 10000000000, example_record 20000000000, example_record 30000000000] < 2 ^ 63
   \<and> aggregated [example_record 10000000000, example_record 20000000000, example_record 30000000000] ''A''
       = Some [example_record 10000000000, example_record 20000000000, example_record 30000000000]
   \<and> [example_record 10000000000, example_record 20000000000, example_record 30000000000] \<noteq> []
   \<and> (\<exists>mx mn av.
         MaxDuration [example_record 10000000000, example_record 20000000000, example_record 30000000000] = Inr mx
       \<and> MinDuration [example_record 10000000000, example_record 20000000000, example_record 30000000000] = Inr mn
       \<and> AvgDuration [example_record 10000000000, example_record 20000000000, example_record 30000000000] = Inr av)
   \<and> (\<forall>p. fst (aggregate [example_record 10000000000, example_record 20000000000, example_record 30000000000]
                 [''A''] \<lparr>files = Map.empty, protected = [], capacity = 1000000\<rparr>) \<noteq> Inl p)"
proof -
  let ?r = "[example_record 10000000000, example_record 20000000000, example_record 30000000000]"
  have h1: "length ?r < 2 ^ 63" by simp
  have h2: "aggregated ?r ''A'' = Some ?r" by (simp add: aggregated_eq example_record_def)
  from groups_never_empty [OF h1, of "''A''" ?r "[''A'']" "\<lparr>files = Map.empty, protected = [], capacity = 1000000\<rparr>"]
    h1 h2
  show ?thesis by blast
qed

section \<open>An empty list of records\<close>

lemma createCsvFile_empty:
  assumes "''sfn.csv'' \<notin> set (protected os)" and "31 \<le> capacity os"
  shows "createCsvFile [] os =
    (None, os\<lparr>files := (files os)(''sfn.csv'' \<mapsto> ''Name,StartDate,Duration,Status'' @ [CHR 0x0A])\<rparr>)"
  using assms
  by (simp add: createCsvFile_def Create_def Writer_Write_def NewWriter_def csv_field_def
      fieldNeedsQuotes_def Flush_def file_write_def)

lemma aggregate_empty:
  assumes "''aggregate.csv'' \<notin> set (protected os)" and "21 \<le> capacity os"
  shows "aggregate [] names os =
    (Inr None, os\<lparr>files := (files os)(''aggregate.csv'' \<mapsto> ''Name,Max,Min,Avg,Len'' @ [CHR 0x0A])\<rparr>)"
proof -
  have wg: "write_groups w Map.empty names os' = (Inr None, w, os')" for w os'
    by (induction names) simp_all
  show ?thesis using assms
    by (simp add: aggregate_def aggregated_def createAggregateCsvFile_def Create_def Writer_Write_def
        NewWriter_def csv_field_def fieldNeedsQuotes_def Flush_def file_write_def wg)
qed

text \<open>
  Claim C10. When the loops of \<^verbatim>\<open>main\<close> end with an empty list of records (and the two
  files can be created and hold a header row), the run succeeds: \<^verbatim>\<open>createCsvFile\<close> writes
  \<^verbatim>\<open>sfn.csv\<close> with the header row \<^verbatim>\<open>Name,StartDate,Duration,Status\<close> alone, the map of
  groups is empty, and \<^verbatim>\<open>main\<close> ends without a panic, leaving \<^verbatim>\<open>aggregate.csv\<close> with the
  header row \<^verbatim>\<open>Name,Max,Min,Avg,Len\<close> alone.
\<close>

theorem empty_record_list:
  assumes "profile \<noteq> []" and "createSfnSession profile = Inr svc"
    and "ListStateMachines svc = Inr machines"
    and "machines_loop svc clock machines (0, []) = Inr (ticks, [])"
    and "''sfn.csv'' \<notin> set (protected os)" and "''aggregate.csv'' \<notin> set (protected os)"
    and "31 \<le> capacity os"
  shows "createCsvFile [] os =
           (None, os\<lparr>files := (files os)(''sfn.csv'' \<mapsto> ''Name,StartDate,Duration,Status'' @ [CHR 0x0A])\<rparr>)
       \<and> aggregated [] = Map.empty
       \<and> main profile createSfnSession clock names os =
           (None, os\<lparr>files := (files os)
              (''sfn.csv'' \<mapsto> ''Name,StartDate,Duration,Status'' @ [CHR 0x0A],
               ''aggregate.csv'' \<mapsto> ''Name,Max,Min,Avg,Len'' @ [CHR 0x0A])\<rparr>)"
proof (intro conjI)
  show c: "createCsvFile [] os =
           (None, os\<lparr>files := (files os)(''sfn.csv'' \<mapsto> ''Name,StartDate,Duration,Status'' @ [CHR 0x0A])\<rparr>)"
    using assms(5,7) by (rule createCsvFile_empty)
  show "aggregated [] = Map.empty" by (simp add: aggregated_def)
  let ?os1 = "os\<lparr>files := (files os)(''sfn.csv'' \<mapsto> ''Name,StartDate,Duration,Status'' @ [CHR 0x0A])\<rparr>"
  have "aggregate [] names ?os1 =
    (Inr None, ?os1\<lparr>files := (files ?os1)(''aggregate.csv'' \<mapsto> ''Name,Max,Min,Avg,Len'' @ [CHR 0x0A])\<rparr>)"
    using assms(6,7) by (intro aggregate_empty) simp_all
  then show "main profile createSfnSession clock names os =
           (None, os\<lparr>files := (files os)
              (''sfn.csv'' \<mapsto> ''Name,StartDate,Duration,Status'' @ [CHR 0x0A],
               ''aggregate.csv'' \<mapsto> ''Name,Max,Min,Avg,Len'' @ [CHR 0x0A])\<rparr>)"
    using assms(1-4) by (simp add: main_def c)
qed

text \<open>Claim C10 at a client that reports no state machine at all.\<close>

theorem empty_record_list_witness:
  "''default'' \<noteq> []
   \<and> ''sfn.csv'' \<notin> set (protected \<lparr>files = Map.empty, protected = [], capacity = 1000000\<rparr>)
   \<and> ''aggregate.csv'' \<notin> set (protected \<lparr>files = Map.empty, protected = [], capacity = 1000000\<rparr>)
   \<and> 31 \<le> capacity \<lparr>files = Map.empty, protected = [], capacity = 1000000\<rparr>
   \<and> machines_loop \<lparr>ListStateMachines = Inr [], ListExecutions = (\<lambda>arn. Inr [])\<rparr>
         (\<lambda>n. \<lparr>unixNano = 1707998400000000000, location = UTC\<rparr>) [] (0, []) = Inr (0, [])
   \<and> createCsvFile [] \<lparr>files = Map.empty, protected = [], capacity = 1000000\<rparr> =
        (None, \<lparr>files = Map.empty, protected = [], capacity = 1000000\<rparr>
           \<lparr>files := (files \<lparr>files = Map.empty, protected = [], capacity = 1000000\<rparr>)
              (''sfn.csv'' \<mapsto> ''Name,StartDate,Duration,Status'' @ [CHR 0x0A])\<rparr>)
   \<and> aggregated [] = Map.empty
   \<and> main ''default'' (\<lambda>profile. Inr \<lparr>ListStateMachines = Inr [], ListExecutions = (\<lambda>arn. Inr [])\<rparr>)
         (\<lambda>n. \<lparr>unixNano = 1707998400000000000, location = UTC\<rparr>) []
         \<lparr>files = Map.empty, protected = [], capacity = 1000000\<rparr> =
        (None, \<lparr>files = Map.empty, protected = [], capacity = 1000000\<rparr>
           \<lparr>files := (files \<lparr>files = Map.empty, protected = [], capacity = 1000000\<rparr>)
              (''sfn.csv'' \<mapsto> ''Name,StartDate,Duration,Status'' @ [CHR 0x0A],
               ''aggregate.csv'' \<mapsto> ''Name,Max,Min,Avg,Len'' @ [CHR 0x0A])\<rparr>)"
proof -
  let ?os = "\<lparr>files = Map.empty, protected = [], capacity = 1000000\<rparr>"
  let ?svc = "\<lparr>ListStateMachines = Inr [], ListExecutions = (\<lambda>arn. Inr [])\<rparr>"
  let ?clock = "\<lambda>n::nat. \<lparr>unixNano = 1707998400000000000, location = UTC\<rparr>"
  have h1: "''default'' \<noteq> []" by simp
  have h2: "(\<lambda>profile. Inr ?svc) ''default'' = (Inr ?svc :: panic + SFN)" by simp
  have h3: "ListStateMachines ?svc = Inr []" by simp
  have h4: "machines_loop ?svc ?clock [] (0, []) = Inr (0, [])" by simp
  have h5: "''sfn.csv'' \<notin> set (protected ?os)" by simp
  have h6: "''aggregate.csv'' \<notin> set (protected ?os)" by simp
  have h7: "31 \<le> capacity ?os" by simp
  from empty_record_list [OF h1 h2 h3 h4 h5 h6 h7, of "[]"] h1 h4 h5 h6 h7
  show ?thesis by blast
qed

section \<open>Grouping by name, and the statistics of a group\<close>





text \<open>The file that \<^verbatim>\<open>aggregate\<close> writes for these four records, ranging over \<^verbatim>\<open>A\<close>, then \<^verbatim>\<open>B\<close>.\<close>

lemma aggregate_example:
  "files (snd (aggregate [example_record 10000000000,
           \<lparr>Name = ''B'', StartDate = ''2024-01-02'', Duration = 5000000000, Status = ''FAILED''\<rparr>,
           example_record 20000000000, example_record 30000000000] [''A'', ''B'']
       \<lparr>files = Map.empty, protected = [], capacity = 200\<rparr>)) ''aggregate.csv''
   = Some (''Name,Max,Min,Avg,Len'' @ [CHR 0x0A] @ ''A,30.00,10.00,20.00,3'' @ [CHR 0x0A]
           @ ''B,5.00,5.00,5.00,1'' @ [CHR 0x0A])"
  by code_simp

section \<open>Writing the raw CSV file and reading it back\<close>

subsection \<open>The reader on the output of the writer\<close>

lemma parse_quoted_body:
  "parse_csv Quoted f row
     (concat (map (\<lambda>c. if c = CHR 0x22 then [CHR 0x22, CHR 0x22] else [c]) s) @ CHR 0x22 # rest)
   = parse_csv QuoteSeen (f @ s) row rest"
  by (induction s arbitrary: f) simp_all

lemma parse_unquoted_body:
  assumes "\<not> list_ex (\<lambda>c. c = CHR 0x0A \<or> c = CHR 0x0D \<or> c = CHR 0x22 \<or> c = CHR '','') s"
  shows "parse_csv Unquoted f row (s @ rest) = parse_csv Unquoted (f @ s) row rest"
  using assms by (induction s arbitrary: f) simp_all

lemma parse_field:
  assumes "rest = c # cs" and "c = CHR '','' \<or> c = CHR 0x0A"
  shows "parse_csv FieldStart [] row (csv_field s @ rest) = after_field row s rest"
proof (cases "fieldNeedsQuotes s")
  case True
  then have "parse_csv FieldStart [] row (csv_field s @ rest) = parse_csv QuoteSeen s row rest"
    using parse_quoted_body [of "[]" row s rest] by (simp add: csv_field_def)
  then show ?thesis using assms by (auto simp: after_field_def)
next
  case False
  show ?thesis
  proof (cases s)
    case Nil
    then show ?thesis using assms False by (auto simp: csv_field_def after_field_def)
  next
    case (Cons a s')
    with False have plain: "\<not> list_ex (\<lambda>c. c = CHR 0x0A \<or> c = CHR 0x0D \<or> c = CHR 0x22 \<or> c = CHR '','') (a # s')"
      by (auto simp: fieldNeedsQuotes_def split: if_splits)
    then have a: "a \<noteq> CHR 0x22" "a \<noteq> CHR '',''" "a \<noteq> CHR 0x0A"
      and s': "\<not> list_ex (\<lambda>c. c = CHR 0x0A \<or> c = CHR 0x0D \<or> c = CHR 0x22 \<or> c = CHR '','') s'"
      by auto
    have "parse_csv FieldStart [] row (csv_field s @ rest) = parse_csv Unquoted [a] row (s' @ rest)"
      using False a by (simp add: csv_field_def Cons)
    also have "\<dots> = parse_csv Unquoted ([a] @ s') row rest"
      by (rule parse_unquoted_body [OF s'])
    finally show ?thesis using assms Cons by (auto simp: after_field_def)
  qed
qed

lemma parse_line:
  assumes "fs \<noteq> []"
  shows "parse_csv FieldStart [] row (csv_line fs @ rest) = (row @ fs) # parse_csv FieldStart [] [] rest"
  using assms
proof (induction fs arbitrary: row rule: csv_line.induct)
  case 1
  then show ?case by simp
next
  case (2 field)
  show ?case
    using parse_field [of "CHR 0x0A # rest" "CHR 0x0A" rest row field]
    by (simp add: after_field_def)
next
  case (3 field v va)
  have "parse_csv FieldStart [] row (csv_line (field # v # va) @ rest)
      = parse_csv FieldStart [] row (csv_field field @ CHR '','' # (csv_line (v # va) @ rest))"
    by simp
  also have "\<dots> = parse_csv FieldStart [] (row @ [field]) (csv_line (v # va) @ rest)"
    using parse_field [of "CHR '','' # (csv_line (v # va) @ rest)" "CHR '',''" "csv_line (v # va) @ rest" row field]
    by (simp add: after_field_def)
  also have "\<dots> = ((row @ [field]) @ (v # va)) # parse_csv FieldStart [] [] rest"
    by (rule "3.IH") simp
  finally show ?case by simp
qed

lemma read_csv_lines:
  assumes "\<forall>fs\<in>set rows. fs \<noteq> []"
  shows "read_csv (concat (map csv_line rows)) = rows"
  using assms unfolding read_csv_def
proof (induction rows)
  case Nil
  then show ?case by simp
next
  case (Cons fs rows)
  then show ?case using parse_line [of fs "[]" "concat (map csv_line rows)"] by simp
qed

subsection \<open>\<^verbatim>\<open>createCsvFile\<close> when the file can be created and holds the output\<close>

lemma Writer_Write_ok:
  assumes "failure w = None" and "target w = name"
    and "length (fl @ buffered w @ csv_line row) \<le> capacity os"
  shows "\<exists>w' fl'. Writer_Write w row (os\<lparr>files := (files os)(name \<mapsto> fl)\<rparr>)
                    = (None, w', os\<lparr>files := (files os)(name \<mapsto> fl')\<rparr>)
               \<and> failure w' = None \<and> target w' = name
               \<and> fl' @ buffered w' = fl @ buffered w @ csv_line row"
proof (cases "4096 < length (buffered w @ csv_line row)")
  case True
  then have ne: "buffered w @ csv_line row \<noteq> []" by auto
  have "Writer_Write w row (os\<lparr>files := (files os)(name \<mapsto> fl)\<rparr>)
      = (None, w\<lparr>buffered := []\<rparr>, os\<lparr>files := (files os)(name \<mapsto> fl @ buffered w @ csv_line row)\<rparr>)"
    using assms True ne
    by (simp add: Writer_Write_def Flush_def file_write_def del: append_is_Nil_conv)
  then show ?thesis using assms by auto
next
  case False
  then have "Writer_Write w row (os\<lparr>files := (files os)(name \<mapsto> fl)\<rparr>)
      = (None, w\<lparr>buffered := buffered w @ csv_line row\<rparr>, os\<lparr>files := (files os)(name \<mapsto> fl)\<rparr>)"
    using assms by (simp add: Writer_Write_def)
  then show ?thesis using assms by auto
qed

lemma write_records_ok:
  assumes "failure w = None" and "target w = name"
    and "length (fl @ buffered w @ concat (map csv_line (map record_row records))) \<le> capacity os"
  shows "\<exists>w' fl'. write_records w records (os\<lparr>files := (files os)(name \<mapsto> fl)\<rparr>)
                    = (None, w', os\<lparr>files := (files os)(name \<mapsto> fl')\<rparr>)
               \<and> failure w' = None \<and> target w' = name
               \<and> fl' @ buffered w' = fl @ buffered w @ concat (map csv_line (map record_row records))"
  using assms
proof (induction records arbitrary: w fl)
  case Nil
  then show ?case by auto
next
  case (Cons r records)
  have "length (fl @ buffered w @ csv_line (record_row r)) \<le> capacity os"
    using Cons.prems(3) by simp
  from Writer_Write_ok [OF Cons.prems(1,2) this]
  obtain w1 fl1 where w1: "Writer_Write w (record_row r) (os\<lparr>files := (files os)(name \<mapsto> fl)\<rparr>)
                    = (None, w1, os\<lparr>files := (files os)(name \<mapsto> fl1)\<rparr>)"
      "failure w1 = None" "target w1 = name"
      "fl1 @ buffered w1 = fl @ buffered w @ csv_line (record_row r)"
    by blast
  have eq: "fl1 @ buffered w1 @ concat (map csv_line (map record_row records))
      = fl @ buffered w @ concat (map csv_line (map record_row (r # records)))"
    using w1(4) by (metis append.assoc concat.simps(2) list.simps(9))
  have "length (fl1 @ buffered w1 @ concat (map csv_line (map record_row records))) \<le> capacity os"
    unfolding eq by (rule Cons.prems(3))
  from Cons.IH [OF w1(2,3) this]
  obtain w' fl' where w': "write_records w1 records (os\<lparr>files := (files os)(name \<mapsto> fl1)\<rparr>)
                    = (None, w', os\<lparr>files := (files os)(name \<mapsto> fl')\<rparr>)"
      "failure w' = None" "target w' = name"
      "fl' @ buffered w' = fl1 @ buffered w1 @ concat (map csv_line (map record_row records))"
    by blast
  have run: "write_records w (r # records) (os\<lparr>files := (files os)(name \<mapsto> fl)\<rparr>)
      = (None, w', os\<lparr>files := (files os)(name \<mapsto> fl')\<rparr>)"
    using w1(1) w'(1) by (simp add: record_row_def)
  have final: "fl' @ buffered w' = fl @ buffered w @ concat (map csv_line (map record_row (r # records)))"
    using w'(4) eq by (simp only:)
  from run w'(2,3) final show ?case by blast
qed

lemma Flush_ok:
  assumes "failure w = None" and "target w = name"
    and "length (fl @ buffered w) \<le> capacity os"
  shows "\<exists>w'. Flush w (os\<lparr>files := (files os)(name \<mapsto> fl)\<rparr>)
               = (w', os\<lparr>files := (files os)(name \<mapsto> fl @ buffered w)\<rparr>) \<and> failure w' = None"
  using assms by (cases "buffered w = []") (auto simp: Flush_def file_write_def)

lemma createCsvFile_ok:
  assumes "''sfn.csv'' \<notin> set (protected os)" and "length (raw_csv records) \<le> capacity os"
  shows "createCsvFile records os = (None, os\<lparr>files := (files os)(''sfn.csv'' \<mapsto> raw_csv records)\<rparr>)"
proof -
  let ?header = "[''Name'', ''StartDate'', ''Duration'', ''Status'']"
  let ?name = "''sfn.csv''"
  have create: "Create os ?name = Inr (os\<lparr>files := (files os)(?name \<mapsto> [])\<rparr>)"
    using assms(1) by (simp add: Create_def)
  have raw: "raw_csv records = csv_line ?header @ concat (map csv_line (map record_row records))"
    by (simp add: raw_csv_def)
  have "length ([] @ buffered (NewWriter ?name) @ csv_line ?header) \<le> capacity os"
    using assms(2) by (simp add: raw NewWriter_def)
  from Writer_Write_ok [of "NewWriter ?name" ?name "[]" ?header os, OF _ _ this]
  obtain w1 fl1 where w1: "Writer_Write (NewWriter ?name) ?header (os\<lparr>files := (files os)(?name \<mapsto> [])\<rparr>)
                    = (None, w1, os\<lparr>files := (files os)(?name \<mapsto> fl1)\<rparr>)"
      "failure w1 = None" "target w1 = ?name" "fl1 @ buffered w1 = csv_line ?header"
    by (auto simp: NewWriter_def)
  have "length (fl1 @ buffered w1 @ concat (map csv_line (map record_row records))) \<le> capacity os"
    using assms(2) w1(4) by (metis append.assoc raw)
  from write_records_ok [OF w1(2,3) this]
  obtain w2 fl2 where w2: "write_records w1 records (os\<lparr>files := (files os)(?name \<mapsto> fl1)\<rparr>)
                    = (None, w2, os\<lparr>files := (files os)(?name \<mapsto> fl2)\<rparr>)"
      "failure w2 = None" "target w2 = ?name"
      "fl2 @ buffered w2 = fl1 @ buffered w1 @ concat (map csv_line (map record_row records))"
    by blast
  have all: "fl2 @ buffered w2 = raw_csv records"
    using w2(4) w1(4) by (metis append.assoc raw)
  then have "length (fl2 @ buffered w2) \<le> capacity os" using assms(2) by simp
  from Flush_ok [OF w2(2,3) this]
  obtain w3 where w3: "Flush w2 (os\<lparr>files := (files os)(?name \<mapsto> fl2)\<rparr>)
               = (w3, os\<lparr>files := (files os)(?name \<mapsto> fl2 @ buffered w2)\<rparr>)" "failure w3 = None"
    by blast
  show ?thesis
    unfolding createCsvFile_def by (simp add: create w1(1) w2(1) w3 all)
qed

text \<open>
  Claim C8. For every list of records, when \<^verbatim>\<open>sfn.csv\<close> can be created and can hold the
  output, \<^verbatim>\<open>createCsvFile\<close> succeeds, and reading the file back gives the header row
  followed by one row (Name, StartDate, duration string, Status) per record, in the order
  of the list, whatever bytes the names and statuses contain.
\<close>

theorem raw_csv_round_trip:
  assumes "''sfn.csv'' \<notin> set (protected os)" and "length (raw_csv records) \<le> capacity os"
  shows "\<exists>os' content.
           createCsvFile records os = (None, os')
         \<and> files os' ''sfn.csv'' = Some content
         \<and> read_csv content =
             [''Name'', ''StartDate'', ''Duration'', ''Status'']
             # map (\<lambda>r. [Name r, StartDate r, StringDurationSecond r, Status r]) records"
proof -
  have "read_csv (raw_csv records) =
      [''Name'', ''StartDate'', ''Duration'', ''Status''] # map record_row records"
    unfolding raw_csv_def by (rule read_csv_lines) (auto simp: record_row_def)
  moreover have "map record_row records = map (\<lambda>r. [Name r, StartDate r, StringDurationSecond r, Status r]) records"
    by (simp add: record_row_def)
  ultimately show ?thesis using createCsvFile_ok [OF assms] by simp
qed

text \<open>
  Claim C8 at two records, the second with a comma, quotes, a carriage return and a line
  feed in its name and a leading space in its status.
\<close>

theorem raw_csv_round_trip_witness:
  "''sfn.csv'' \<notin> set (protected \<lparr>files = Map.empty, protected = [], capacity = 200\<rparr>)
   \<and> length (raw_csv
        [\<lparr>Name = ''A'', StartDate = ''2024-01-01'', Duration = 60000000000, Status = ''SUCCEEDED''\<rparr>,
         \<lparr>Name = [CHR ''x'', CHR '','', CHR 0x22, CHR ''y'', CHR 0x22, CHR 0x0D, CHR 0x0A, CHR ''z''],
          StartDate = ''2024-01-02'', Duration = 1500000000, Status = '' FAILED''\<rparr>])
       \<le> capacity \<lparr>files = Map.empty, protected = [], capacity = 200\<rparr>
   \<and> (\<exists>os' content.
         createCsvFile
           [\<lparr>Name = ''A'', StartDate = ''2024-01-01'', Duration = 60000000000, Status = ''SUCCEEDED''\<rparr>,
            \<lparr>Name = [CHR ''x'', CHR '','', CHR 0x22, CHR ''y'', CHR 0x22, CHR 0x0D, CHR 0x0A, CHR ''z''],
             StartDate = ''2024-01-02'', Duration = 1500000000, Status = '' FAILED''\<rparr>]
           \<lparr>files = Map.empty, protected = [], capacity = 200\<rparr> = (None, os')
       \<and> files os' ''sfn.csv'' = Some content
       \<and> read_csv content =
           [''Name'', ''StartDate'', ''Duration'', ''Status'']
           # map (\<lambda>r. [Name r, StartDate r, StringDurationSecond r, Status r])
               [\<lparr>Name = ''A'', StartDate = ''2024-01-01'', Duration = 60000000000, Status = ''SUCCEEDED''\<rparr>,
                \<lparr>Name = [CHR ''x'', CHR '','', CHR 0x22, CHR ''y'', CHR 0x22, CHR 0x0D, CHR 0x0A, CHR ''z''],
                 StartDate = ''2024-01-02'', Duration = 1500000000, Status = '' FAILED''\<rparr>])"
proof -
  let ?os = "\<lparr>files = Map.empty, protected = [], capacity = 200\<rparr>"
  let ?records = "[\<lparr>Name = ''A'', StartDate = ''2024-01-01'', Duration = 60000000000, Status = ''SUCCEEDED''\<rparr>,
         \<lparr>Name = [CHR ''x'', CHR '','', CHR 0x22, CHR ''y'', CHR 0x22, CHR 0x0D, CHR 0x0A, CHR ''z''],
          StartDate = ''2024-01-02'', Duration = 1500000000, Status = '' FAILED''\<rparr>]"
  have h1: "''sfn.csv'' \<notin> set (protected ?os)" by simp
  have h2: "length (raw_csv ?records) \<le> capacity ?os" by code_simp
  from raw_csv_round_trip [OF h1 h2] h1 h2 show ?thesis by blast
qed

text \<open>The bytes written for these two records.\<close>

lemma raw_csv_example:
  "raw_csv
        [\<lparr>Name = ''A'', StartDate = ''2024-01-01'', Duration = 60000000000, Status = ''SUCCEEDED''\<rparr>,
         \<lparr>Name = [CHR ''x'', CHR '','', CHR 0x22, CHR ''y'', CHR 0x22, CHR 0x0D, CHR 0x0A, CHR ''z''],
          StartDate = ''2024-01-02'', Duration = 1500000000, Status = '' FAILED''\<rparr>]
   = ''Name,StartDate,Duration,Status'' @ [CHR 0x0A]
     @ ''A,2024-01-01,60.00,SUCCEEDED'' @ [CHR 0x0A]
     @ [CHR 0x22, CHR ''x'', CHR '','', CHR 0x22, CHR 0x22, CHR ''y'', CHR 0x22, CHR 0x22, CHR 0x0D, CHR 0x0A,
        CHR ''z'', CHR 0x22] @ '',2024-01-02,1.50,'' @ [CHR 0x22] @ '' FAILED'' @ [CHR 0x22, CHR 0x0A]"
  by code_simp

end
